theory Spec2Isabelle
  imports Complex_Main "HOL-Library.Log_Nat"
begin

section \<open>Orders and differentials of function fields\<close>

text \<open>
  A shallow embedding of \<^verbatim>\<open>sage/rings/function_field/order.py\<close> and
  \<^verbatim>\<open>sage/rings/function_field/differential.py\<close>.

  Elements of a function field are values of a type \<open>'a\<close> of class \<open>field\<close>: the exact
  field arithmetic of the element classes is consumed as it is. Elements of the base
  rational function field \<open>k(x)\<close> are of a type \<open>'k\<close> of class \<open>field\<close>, and polynomials
  of \<open>k[x]\<close> are of a type \<open>'p\<close> of class \<open>semiring_gcd\<close>, whose \<open>normalize\<close> is what
  \<^verbatim>\<open>.monic()\<close> computes. Everything else that the two files call and do not define
  (coordinate maps, ranks and membership of spans, traces, matrix inverses, Hermite forms,
  kernels, residue fields) is a parameter of the definitions below.
\<close>

subsection \<open>Exceptions\<close>

datatype error =
    ValueError string
  | TypeError string
  | ZeroDivisionError
  | AssertionError string

subsection \<open>Differentials (differential.py)\<close>

text \<open>
  The one thing a differential asks of its field is \<^verbatim>\<open>field.derivation()\<close>, the
  derivation with respect to the generator of the base rational function field.
\<close>

record 'a function_field =
  derivation :: "'a \<Rightarrow> 'a"

text \<open>
  \<^verbatim>\<open>FunctionFieldDifferential_global\<close> holds \<^verbatim>\<open>_field\<close> and \<^verbatim>\<open>_f\<close>.
\<close>

record 'a differential_global =
  d_field :: "'a function_field"
  d_f :: 'a

text \<open>
  \<^verbatim>\<open>
  def __init__(self, field, f, t=None):
      if t is not None:
          der = field.derivation()
          f *= der(t)
      self._field = field
      self._f = f
  \<close>
\<close>

definition FunctionFieldDifferential_global_init ::
  "('a::field) function_field \<Rightarrow> 'a \<Rightarrow> 'a option \<Rightarrow> 'a differential_global" where
  "FunctionFieldDifferential_global_init field f t =
     \<lparr> d_field = field,
       d_f = (case t of None \<Rightarrow> f | Some t' \<Rightarrow> f * derivation field t') \<rparr>"

text \<open>
  \<^verbatim>\<open>
  def differential(field, f, t=None):
      f = field(f)
      if t is not None:
          t = field(t)
      return field.space_of_differentials().element_class(field, f, t)
  \<close>
  The arguments are elements of the field already, so the conversions \<^verbatim>\<open>field(f)\<close>
  and \<^verbatim>\<open>field(t)\<close> return them unchanged.
\<close>

definition differential ::
  "('a::field) function_field \<Rightarrow> 'a \<Rightarrow> 'a option \<Rightarrow> 'a differential_global" where
  "differential field f t =
     (let f' = f;
          t' = (case t of None \<Rightarrow> None | Some u \<Rightarrow> Some u)
      in FunctionFieldDifferential_global_init field f' t')"

text \<open>
  The six comparison operators of Python, and \<^verbatim>\<open>richcmp(x, y, op)\<close> on field
  elements. The order of the elements is the element class's own: the parameter \<open>lt\<close>.
\<close>

datatype cmp_op = Op_LT | Op_LE | Op_EQ | Op_NE | Op_GT | Op_GE

fun richcmp :: "('a \<Rightarrow> 'a \<Rightarrow> bool) \<Rightarrow> 'a \<Rightarrow> 'a \<Rightarrow> cmp_op \<Rightarrow> bool" where
  "richcmp lt x y Op_LT = lt x y"
| "richcmp lt x y Op_LE = (lt x y \<or> x = y)"
| "richcmp lt x y Op_EQ = (x = y)"
| "richcmp lt x y Op_NE = (x \<noteq> y)"
| "richcmp lt x y Op_GT = lt y x"
| "richcmp lt x y Op_GE = (lt y x \<or> x = y)"

text \<open>
  \<^verbatim>\<open>
  def _richcmp_(self, other, op):
      return richcmp(self._f, other._f, op)
  \<close>
\<close>

definition differential_richcmp ::
  "('a \<Rightarrow> 'a \<Rightarrow> bool) \<Rightarrow> 'a differential_global \<Rightarrow> 'a differential_global \<Rightarrow> cmp_op \<Rightarrow> bool" where
  "differential_richcmp lt self other op = richcmp lt (d_f self) (d_f other) op"

subsection \<open>Orders given by a basis (order.py, FunctionFieldOrder_basis)\<close>

text \<open>
  What an order asks of its function field: \<^verbatim>\<open>field.degree()\<close>, the map \<open>to\<close> of
  \<^verbatim>\<open>field.vector_space()\<close>, and, of the module \<^verbatim>\<open>V.span(gens, base_ring=R)\<close> over the
  maximal order \<open>R\<close> of the base field, its \<^verbatim>\<open>rank()\<close> and its membership test. A
  span is represented by the list of its generators. For the orders over the maximal
  infinite order, \<open>is_independent vs\<close> says that \<^verbatim>\<open>V.span_of_basis(vs)\<close> accepts \<open>vs\<close>
  (it raises on linearly dependent vectors), and \<open>infinite_integral vs w\<close> that
  \<^verbatim>\<open>W.coordinate_vector(w)\<close> is in the free module over the maximal infinite order of the
  base field, for \<open>W\<close> the space with the basis \<open>vs\<close>.
\<close>

record ('a, 'v) order_field =
  degree :: nat
  to_V :: "'a \<Rightarrow> 'v"
  span_rank :: "'v list \<Rightarrow> nat"
  span_contains :: "'v list \<Rightarrow> 'v \<Rightarrow> bool"
  is_independent :: "'v list \<Rightarrow> bool"
  infinite_integral :: "'v list \<Rightarrow> 'v \<Rightarrow> bool"

record ('a, 'v) order_basis =
  o_field :: "('a, 'v) order_field"
  o_basis :: "'a list"
  o_module :: "'v list"

text \<open>
  \<^verbatim>\<open>
  def __init__(self, basis, check=True):
      if len(basis) == 0:
          raise ValueError("basis must have positive length")
      field = basis[0].parent()
      if len(basis) != field.degree():
          raise ValueError("length of basis must equal degree of field")
      FunctionFieldOrder.__init__(self, field)
      self._basis = tuple(basis)
      V, fr, to = field.vector_space()
      R = field.base_field().maximal_order()
      self._module = V.span([to(b) for b in basis], base_ring=R)
      if check:
          if self._module.rank() != field.degree():
              raise ValueError("Basis %s is not linearly independent"%(basis))
          if not to(field(1)) in self._module:
              raise ValueError("The identity element must be in the module spanned by basis %s"%(basis))
          if not all(to(a*b) in self._module for a in basis for b in basis):
              raise ValueError("The module generated by basis %s must be closed under multiplication"%(basis))
  \<close>
  The field is the parent of the elements: the parameter \<open>field\<close>.
\<close>

definition FunctionFieldOrder_basis_init ::
  "('a::field, 'v) order_field \<Rightarrow> 'a list \<Rightarrow> bool \<Rightarrow> error + ('a, 'v) order_basis" where
  "FunctionFieldOrder_basis_init field basis check =
     (if length basis = 0 then Inl (ValueError ''basis must have positive length'')
      else if length basis \<noteq> degree field
        then Inl (ValueError ''length of basis must equal degree of field'')
      else
        let module = map (to_V field) basis;
            self = \<lparr> o_field = field, o_basis = basis, o_module = module \<rparr>
        in if check then
             (if span_rank field module \<noteq> degree field
                then Inl (ValueError ''Basis is not linearly independent'')
              else if \<not> span_contains field module (to_V field 1)
                then Inl (ValueError ''The identity element must be in the module spanned by basis'')
              else if \<not> list_all (\<lambda>a. list_all (\<lambda>b. span_contains field module (to_V field (a * b))) basis) basis
                then Inl (ValueError ''The module generated by basis must be closed under multiplication'')
              else Inr self)
           else Inr self)"

subsection \<open>Orders given by a basis over the infinite maximal order (FunctionFieldOrderInfinite_basis)\<close>

record ('a, 'v) order_infinite_basis =
  oi_field :: "('a, 'v) order_field"
  oi_basis :: "'a list"
  oi_ambient_space :: "'v list"
  oi_module_rank :: nat

text \<open>
  \<^verbatim>\<open>
  def __init__(self, basis, check=True):
      if len(basis) == 0:
          raise ValueError("basis must have positive length")
      field = basis[0].parent()
      if len(basis) != field.degree():
          raise ValueError("length of basis must equal degree of field")
      FunctionFieldOrder.__init__(self, field)
      V, fr, to = field.vector_space()
      R = field.base_field().maximal_order_infinite()
      W = V.span_of_basis([to(v) for v in basis])
      from sage.modules.free_module import FreeModule
      M = FreeModule(R,W.dimension())
      self._basis = tuple(basis)
      self._ambient_space = W
      self._module = M
      if check:
          if self._module.rank() != field.degree():
              raise ValueError("Basis %s is not linearly independent"%(basis))
          if not W.coordinate_vector(to(field(1))) in self._module:
              raise ValueError("The identity element must be in the module spanned by basis %s"%(basis))
          if not all(W.coordinate_vector(to(a*b)) in self._module for a in basis for b in basis):
              raise ValueError("The module generated by basis %s must be closed under multiplication"%(basis))
  \<close>
  The free module \<open>M\<close> is known by its rank, the dimension of \<open>W\<close>, which is the number
  of the vectors of its basis.
\<close>

definition FunctionFieldOrderInfinite_basis_init ::
  "('a::field, 'v) order_field \<Rightarrow> 'a list \<Rightarrow> bool \<Rightarrow> error + ('a, 'v) order_infinite_basis" where
  "FunctionFieldOrderInfinite_basis_init field basis check =
     (if length basis = 0 then Inl (ValueError ''basis must have positive length'')
      else if length basis \<noteq> degree field
        then Inl (ValueError ''length of basis must equal degree of field'')
      else
        let W = map (to_V field) basis
        in if \<not> is_independent field W
           then Inl (ValueError ''The given basis vectors must be linearly independent.'')
           else
             let self = \<lparr> oi_field = field, oi_basis = basis, oi_ambient_space = W,
                          oi_module_rank = length W \<rparr>
             in if check then
                  (if oi_module_rank self \<noteq> degree field
                     then Inl (ValueError ''Basis is not linearly independent'')
                   else if \<not> infinite_integral field W (to_V field 1)
                     then Inl (ValueError ''The identity element must be in the module spanned by basis'')
                   else if \<not> list_all (\<lambda>a. list_all (\<lambda>b. infinite_integral field W (to_V field (a * b))) basis) basis
                     then Inl (ValueError ''The module generated by basis must be closed under multiplication'')
                   else Inr self)
                else Inr self)"

subsection \<open>The base rational function field and the collaborators of a global order\<close>

text \<open>
  Of an element of the rational function field \<open>k(x)\<close> the code reads \<^verbatim>\<open>numerator()\<close>
  and \<^verbatim>\<open>denominator()\<close>, polynomials of \<open>k[x]\<close>; \<open>of_poly\<close> is the conversion of a
  polynomial to the field, \<open>gen\<close> is \<^verbatim>\<open>K.gen()\<close>, and \<open>poly_degree\<close> is
  \<^verbatim>\<open>degree()\<close> of a polynomial.
\<close>

record ('k, 'p) rational_function_field =
  numerator :: "'k \<Rightarrow> 'p"
  denominator :: "'k \<Rightarrow> 'p"
  of_poly :: "'p \<Rightarrow> 'k"
  gen :: 'k
  poly_degree :: "'p \<Rightarrow> int"

text \<open>
  An ideal of the maximal order of the rational function field is
  \<^verbatim>\<open>FunctionFieldIdeal_rational(order, gen)\<close>; its \<^verbatim>\<open>gens()\<close> is the tuple of that one
  generator. An ideal of a global maximal order is
  \<^verbatim>\<open>FunctionFieldIdeal_global(order, hnf, d)\<close>: a matrix in Hermite form and a denominator.
\<close>

record 'k ideal_rational =
  ideal_gen :: 'k

definition gens :: "'k ideal_rational \<Rightarrow> 'k list" where
  "gens I = [ideal_gen I]"

record 'p ideal_global =
  hnf :: "'p list list"
  ideal_denominator :: 'p

text \<open>
  What the maximal order of a global function field \<open>F\<close> asks of its collaborators:
  \<^item> \<open>F_degree\<close>: \<^verbatim>\<open>F.degree()\<close>;
  \<^item> \<open>module_coordinates e\<close>: \<^verbatim>\<open>self._module.coordinate_vector(self._to_module(e))\<close>, the
    coordinates of \<open>e\<close> in the basis of the order, elements of \<open>k(x)\<close>;
  \<^item> \<open>trace\<close>: \<^verbatim>\<open>e.trace()\<close>;
  \<^item> \<open>matrix_inverse\<close>: \<^verbatim>\<open>T.inverse()\<close>, which raises on a singular matrix;
  \<^item> \<open>hermite_form\<close>: \<^verbatim>\<open>mat._hermite_form_euclidean(normalization=lambda p: ~p.lc())\<close>;
  \<^item> \<open>ideal_invert\<close>: \<^verbatim>\<open>~I\<close> on ideals of the order;
  \<^item> \<open>constant_field_order\<close>: \<^verbatim>\<open>F.constant_base_field().order()\<close>;
  \<^item> \<open>is_irreducible\<close>: \<^verbatim>\<open>is_irreducible()\<close> of a polynomial;
  \<^item> \<open>to_Fp p\<close> and \<open>fr_Fp p\<close>: the two maps of \<^verbatim>\<open>o._residue_field_global(p)\<close>, which
    builds an extension of the constant field and finds a root of \<open>p\<close> in it;
  \<^item> \<open>kernel_basis\<close>: \<^verbatim>\<open>matrix(Fp, mat).kernel().basis()\<close>.
\<close>

record ('a, 'k, 'p, 'fp) global_function_field =
  F_degree :: nat
  base_field :: "('k, 'p) rational_function_field"
  module_coordinates :: "'a \<Rightarrow> 'k list"
  trace :: "'a \<Rightarrow> 'k"
  matrix_inverse :: "'k list list \<Rightarrow> error + 'k list list"
  hermite_form :: "'p list list \<Rightarrow> 'p list list"
  ideal_invert :: "'p ideal_global \<Rightarrow> error + 'p ideal_global"
  constant_field_order :: nat
  is_irreducible :: "'p \<Rightarrow> bool"
  to_Fp :: "'p \<Rightarrow> 'p \<Rightarrow> 'fp"
  fr_Fp :: "'p \<Rightarrow> 'fp \<Rightarrow> 'p"
  kernel_basis :: "'fp list list \<Rightarrow> 'fp list list"

subsection \<open>Maximal orders of global function fields (FunctionFieldMaximalOrder_global)\<close>

record ('a, 'k, 'p, 'fp) maximal_order_global =
  mo_field :: "('a, 'k, 'p, 'fp) global_function_field"
  mo_basis :: "'a list"
  mo_mtable :: "'p list list list"

text \<open>
  \<^verbatim>\<open>
  def _coordinate_vector(self, e):
      v = self._module.coordinate_vector(self._to_module(e), check=False)
      return vector([c.numerator() for c in v])
  \<close>
  It depends on the field and the module only, both fixed before the table is built.
\<close>

definition private_coordinate_vector ::
  "('a, 'k, 'p, 'fp) global_function_field \<Rightarrow> 'a \<Rightarrow> 'p list" where
  "private_coordinate_vector F e =
     (let v = module_coordinates F e in map (\<lambda>c. numerator (base_field F) c) v)"

text \<open>
  The part of the constructor that stores the basis and builds the multiplication table:
  \<^verbatim>\<open>
  def __init__(self, field, basis):
      ...
      self._basis = tuple(basis)
      # multiplication table (lower triangular)
      n = len(basis)
      self._mtable = []
      for i in range(n):
          row = []
          for j in range(n):
              row.append(self._coordinate_vector(basis[i] * basis[j]))
          self._mtable.append(row)
  \<close>
  The rest of the constructor prepares the decomposition of primes and writes other
  attributes only.
\<close>

definition FunctionFieldMaximalOrder_global_init ::
  "('a::field, 'k, 'p, 'fp) global_function_field \<Rightarrow> 'a list
     \<Rightarrow> ('a, 'k, 'p, 'fp) maximal_order_global" where
  "FunctionFieldMaximalOrder_global_init field basis =
     (let n = length basis;
          mtable = map (\<lambda>i. map (\<lambda>j. private_coordinate_vector field (basis ! i * basis ! j))
                                 [0..<n])
                       [0..<n]
      in \<lparr> mo_field = field, mo_basis = basis, mo_mtable = mtable \<rparr>)"

text \<open>
  \<^verbatim>\<open>
  def _ideal_from_vectors_and_denominator(self, vecs, d=1, check=True):
      R = self._module_base_ring._ring
      d = R(d)
      if check and not d.is_one(): # check if d is true denominator
          try:
              M = []
              g = d
              for v in vecs:
                  l = list(v)
                  for c in l:
                      g = g.gcd(c)
                      if g.is_one():
                          raise AssertionError
                  M += l
              d = d // g
              mat = matrix(R, len(vecs), [c // g for c in M])
          except AssertionError:
              mat = matrix(R, vecs)
      else:
          mat = matrix(R, vecs)
      mat.reverse_rows_and_columns()
      mat._hermite_form_euclidean(normalization=lambda p: ~p.lc())
      mat.reverse_rows_and_columns()
      i = 0
      while i < mat.nrows() and mat.row(i).is_zero():
          i += 1
      hnf = mat[i:] # remove zero rows
      return FunctionFieldIdeal_global(self, hnf, d)
  \<close>
\<close>

fun common_divisor :: "('p::semiring_gcd) \<Rightarrow> 'p list \<Rightarrow> error + 'p" where
  "common_divisor g [] = Inr g"
| "common_divisor g (c # cs) =
     (let g' = gcd g c
      in if g' = 1 then Inl (AssertionError []) else common_divisor g' cs)"

definition reverse_rows_and_columns :: "'p list list \<Rightarrow> 'p list list" where
  "reverse_rows_and_columns mat = rev (map rev mat)"

definition row_is_zero :: "('p::zero) list \<Rightarrow> bool" where
  "row_is_zero r = list_all (\<lambda>c. c = 0) r"

definition ideal_from_vectors_and_denominator ::
  "('a, 'k, 'p::semiring_gcd, 'fp) global_function_field \<Rightarrow> 'p list list \<Rightarrow> 'p \<Rightarrow> bool
     \<Rightarrow> 'p ideal_global" where
  "ideal_from_vectors_and_denominator F vecs d check =
     (let (mat, d') =
            (if check \<and> d \<noteq> 1 then
               (case common_divisor d (concat vecs) of
                  Inr g \<Rightarrow> (map (map (\<lambda>c. c div g)) vecs, d div g)
                | Inl _ \<Rightarrow> (vecs, d))
             else (vecs, d));
          mat1 = reverse_rows_and_columns mat;
          mat2 = hermite_form F mat1;
          mat3 = reverse_rows_and_columns mat2
      in \<lparr> hnf = dropWhile row_is_zero mat3, ideal_denominator = d' \<rparr>)"

text \<open>
  \<^verbatim>\<open>
  def _ideal_from_vectors(self, vecs):
      R = self._module_base_ring._ring
      d = lcm([v.denominator() for v in vecs])
      vecs = [[(d*c).numerator() for c in v] for v in vecs]
      return self._ideal_from_vectors_and_denominator(vecs, d, check=False)
  \<close>
  The denominator of a vector over \<open>k(x)\<close> is the least common multiple of the
  denominators of its entries.
\<close>

definition vector_denominator ::
  "('k, 'p::semiring_gcd) rational_function_field \<Rightarrow> 'k list \<Rightarrow> 'p" where
  "vector_denominator K v = lcm_list (map (denominator K) v)"

definition ideal_from_vectors ::
  "('a, 'k::field, 'p::semiring_gcd, 'fp) global_function_field \<Rightarrow> 'k list list
     \<Rightarrow> 'p ideal_global" where
  "ideal_from_vectors F vecs =
     (let K = base_field F;
          d = lcm_list (map (vector_denominator K) vecs);
          vecs' = map (map (\<lambda>c. numerator K (of_poly K d * c))) vecs
      in ideal_from_vectors_and_denominator F vecs' d False)"

subsection \<open>Cached methods of a global maximal order\<close>

text \<open>
  \<^verbatim>\<open>different\<close>, \<^verbatim>\<open>codifferent\<close>, \<^verbatim>\<open>_codifferent_matrix\<close> and \<^verbatim>\<open>p_radical\<close> are
  decorated with \<^verbatim>\<open>@cached_method\<close>: the first call with an argument stores what it
  returns in the order, and later calls return what is stored. A call that raises stores
  nothing. The store of one order:
\<close>

record ('k, 'p) method_cache =
  cache_different :: "'p ideal_global option"
  cache_codifferent :: "'p ideal_global option"
  cache_codifferent_matrix :: "'k list list option"
  cache_p_radical :: "'k ideal_rational \<Rightarrow> 'p ideal_global option"

definition empty_cache :: "('k, 'p) method_cache" where
  "empty_cache =
     \<lparr> cache_different = None, cache_codifferent = None,
       cache_codifferent_matrix = None, cache_p_radical = (\<lambda>_. None) \<rparr>"

text \<open>
  \<^verbatim>\<open>
  @cached_method
  def _codifferent_matrix(self):
      rows = []
      for u in self.basis():
          row = []
          for v in self.basis():
              row.append((u*v).trace())
          rows.append(row)
      T = matrix(rows)
      return T
  \<close>
\<close>

definition codifferent_matrix_body ::
  "('a::field, 'k, 'p, 'fp) maximal_order_global \<Rightarrow> 'k list list" where
  "codifferent_matrix_body self =
     map (\<lambda>u. map (\<lambda>v. trace (mo_field self) (u * v)) (mo_basis self)) (mo_basis self)"

definition private_codifferent_matrix ::
  "('a::field, 'k, 'p, 'fp) maximal_order_global \<Rightarrow> ('k, 'p) method_cache
     \<Rightarrow> 'k list list \<times> ('k, 'p) method_cache" where
  "private_codifferent_matrix self c =
     (case cache_codifferent_matrix c of
        Some T \<Rightarrow> (T, c)
      | None \<Rightarrow>
          (let T = codifferent_matrix_body self
           in (T, c\<lparr>cache_codifferent_matrix := Some T\<rparr>)))"

text \<open>The columns of a matrix given by its rows: \<^verbatim>\<open>M.columns()\<close>.\<close>

definition columns :: "'k list list \<Rightarrow> 'k list list" where
  "columns m =
     (case m of
        [] \<Rightarrow> []
      | r # _ \<Rightarrow> map (\<lambda>j. map (\<lambda>row. row ! j) m) [0..<length r])"

text \<open>
  \<^verbatim>\<open>
  @cached_method
  def codifferent(self):
      T  = self._codifferent_matrix()
      return self._ideal_from_vectors(T.inverse().columns())
  \<close>
\<close>

definition codifferent ::
  "('a::field, 'k::field, 'p::semiring_gcd, 'fp) maximal_order_global \<Rightarrow> ('k, 'p) method_cache
     \<Rightarrow> (error + 'p ideal_global) \<times> ('k, 'p) method_cache" where
  "codifferent self c =
     (case cache_codifferent c of
        Some I \<Rightarrow> (Inr I, c)
      | None \<Rightarrow>
          (let (T, c1) = private_codifferent_matrix self c
           in case matrix_inverse (mo_field self) T of
                Inl e \<Rightarrow> (Inl e, c1)
              | Inr Ti \<Rightarrow>
                  (let I = ideal_from_vectors (mo_field self) (columns Ti)
                   in (Inr I, c1\<lparr>cache_codifferent := Some I\<rparr>))))"

text \<open>
  \<^verbatim>\<open>
  @cached_method
  def different(self):
      return ~self.codifferent()
  \<close>
\<close>

definition different ::
  "('a::field, 'k::field, 'p::semiring_gcd, 'fp) maximal_order_global \<Rightarrow> ('k, 'p) method_cache
     \<Rightarrow> (error + 'p ideal_global) \<times> ('k, 'p) method_cache" where
  "different self c =
     (case cache_different c of
        Some D \<Rightarrow> (Inr D, c)
      | None \<Rightarrow>
          (case codifferent self c of
             (Inl e, c1) \<Rightarrow> (Inl e, c1)
           | (Inr I, c1) \<Rightarrow>
               (case ideal_invert (mo_field self) I of
                  Inl e \<Rightarrow> (Inl e, c1)
                | Inr D \<Rightarrow> (Inr D, c1\<lparr>cache_different := Some D\<rparr>))))"

text \<open>
  The loop of \<^verbatim>\<open>p_radical\<close> that picks the exponent:
  \<^verbatim>\<open>
      exp = q
      while exp <= F.degree():
          exp = exp**q
  \<close>
  It does not end when \<open>q \<le> 1\<close> and \<open>q \<le> F.degree()\<close>, so its result is an option: \<open>None\<close>
  is the loop that runs forever. The variable \<^verbatim>\<open>exp\<close> is \<open>ex\<close> here.
\<close>

partial_function (option) radical_exponent :: "nat \<Rightarrow> nat \<Rightarrow> nat \<Rightarrow> nat option" where
  "radical_exponent q n ex = (if ex \<le> n then radical_exponent q n (ex ^ q) else Some ex)"

declare radical_exponent.simps [code]

text \<open>
  \<^verbatim>\<open>
  @cached_method
  def p_radical(self, prime):
      g = prime.gens()[0]
      if not (g.denominator() == 1 and g.numerator().is_irreducible()):
          raise ValueError('not a prime ideal')
      F = self.function_field()
      n = F.degree()
      o = prime.ring()
      p = g.numerator()
      # Fp is isomorphic to the residue field o/p
      Fp, fr_Fp, to_Fp = o._residue_field_global(p)
      # exp = q^j should be at least extension degree where q is
      # the order of the residue field o/p
      q = F.constant_base_field().order()**p.degree()
      exp = q
      while exp <= F.degree():
          exp = exp**q
      # radical equals to the kernel of the map x |-> x^exp
      mat = []
      for g in self.basis():
          v = [to_Fp(c) for c in self._coordinate_vector(g**exp)]
          mat.append(v)
      mat = matrix(Fp,mat)
      ker = mat.kernel()
      # construct module generators of the p-radical
      vecs = []
      for i in range(n):
          v = vector([p if j == i else 0 for j in range(n)])
          vecs.append(v)
      for b in ker.basis():
          v = vector([fr_Fp(c) for c in b])
          vecs.append(v)
      return self._ideal_from_vectors(vecs)
  \<close>
  The vectors handed to \<^verbatim>\<open>_ideal_from_vectors\<close> have polynomial entries; the method
  reads them as elements of \<open>k(x)\<close>, which \<open>of_poly\<close> makes explicit. The degree of an
  irreducible polynomial is a natural number.
\<close>

definition p_radical_body ::
  "('a::field, 'k::field, 'p::semiring_gcd, 'fp) maximal_order_global \<Rightarrow> 'k ideal_rational
     \<Rightarrow> (error + 'p ideal_global) option" where
  "p_radical_body self prime =
     (let F = mo_field self; K = base_field F;
          g = hd (gens prime)
      in if \<not> (denominator K g = 1 \<and> is_irreducible F (numerator K g))
         then Some (Inl (ValueError ''not a prime ideal''))
         else
           (let n = F_degree F;
                p = numerator K g;
                q = constant_field_order F ^ nat (poly_degree K p)
            in case radical_exponent q (F_degree F) q of
                 None \<Rightarrow> None
               | Some ex \<Rightarrow>
                   (let mat = map (\<lambda>g. map (to_Fp F p) (private_coordinate_vector F (g ^ ex)))
                                  (mo_basis self);
                        ker = kernel_basis F mat;
                        vecs = map (\<lambda>i. map (\<lambda>j. if j = i then p else 0) [0..<n]) [0..<n]
                               @ map (\<lambda>b. map (fr_Fp F p) b) ker
                    in Some (Inr (ideal_from_vectors F (map (map (of_poly K)) vecs))))))"

definition p_radical ::
  "('a::field, 'k::field, 'p::semiring_gcd, 'fp) maximal_order_global \<Rightarrow> ('k, 'p) method_cache
     \<Rightarrow> 'k ideal_rational \<Rightarrow> ((error + 'p ideal_global) \<times> ('k, 'p) method_cache) option" where
  "p_radical self c prime =
     (case cache_p_radical c prime of
        Some I \<Rightarrow> Some (Inr I, c)
      | None \<Rightarrow>
          (case p_radical_body self prime of
             None \<Rightarrow> None
           | Some (Inl e) \<Rightarrow> Some (Inl e, c)
           | Some (Inr I) \<Rightarrow>
               Some (Inr I, c\<lparr>cache_p_radical := (cache_p_radical c)(prime \<mapsto> I)\<rparr>)))"

text \<open>
  The stores an order can hold: the empty one of a new order, and the one left by a call
  of a cached method on a store the order can hold.
\<close>

inductive reachable ::
  "('a::field, 'k::field, 'p::semiring_gcd, 'fp) maximal_order_global \<Rightarrow> ('k, 'p) method_cache
     \<Rightarrow> bool"
  for self :: "('a::field, 'k::field, 'p::semiring_gcd, 'fp) maximal_order_global" where
  new: "reachable self empty_cache"
| call_codifferent_matrix:
    "reachable self c \<Longrightarrow> reachable self (snd (private_codifferent_matrix self c))"
| call_codifferent: "reachable self c \<Longrightarrow> reachable self (snd (codifferent self c))"
| call_different: "reachable self c \<Longrightarrow> reachable self (snd (different self c))"
| call_p_radical:
    "reachable self c \<Longrightarrow> p_radical self c prime = Some (r, c') \<Longrightarrow> reachable self c'"

text \<open>
  A store is consistent with the order when every value it holds is the value the method
  computes on an empty store.
\<close>

definition cache_ok ::
  "('a::field, 'k::field, 'p::semiring_gcd, 'fp) maximal_order_global \<Rightarrow> ('k, 'p) method_cache
     \<Rightarrow> bool" where
  "cache_ok self c \<longleftrightarrow>
     (\<forall>T. cache_codifferent_matrix c = Some T \<longrightarrow> T = codifferent_matrix_body self)
   \<and> (\<forall>I. cache_codifferent c = Some I \<longrightarrow>
          (\<exists>Ti. matrix_inverse (mo_field self) (codifferent_matrix_body self) = Inr Ti
              \<and> I = ideal_from_vectors (mo_field self) (columns Ti)))
   \<and> (\<forall>D. cache_different c = Some D \<longrightarrow>
          (\<exists>Ti. matrix_inverse (mo_field self) (codifferent_matrix_body self) = Inr Ti
              \<and> ideal_invert (mo_field self) (ideal_from_vectors (mo_field self) (columns Ti))
                  = Inr D))
   \<and> (\<forall>prime I. cache_p_radical c prime = Some I \<longrightarrow>
          p_radical_body self prime = Some (Inr I))"

subsection \<open>The other classes of orders, and \<open>basis()\<close>\<close>

text \<open>
  \<^verbatim>\<open>FunctionFieldMaximalOrder_rational.__init__\<close> sets
  \<^verbatim>\<open>self._gen = self(self._ring.gen())\<close> and \<^verbatim>\<open>self._basis = (self.one(),)\<close>.
\<close>

record 'a maximal_order_rational =
  mr_gen :: 'a
  mr_basis :: "'a list"

definition FunctionFieldMaximalOrder_rational_init :: "('a::field) \<Rightarrow> 'a maximal_order_rational" where
  "FunctionFieldMaximalOrder_rational_init ring_gen = \<lparr> mr_gen = ring_gen, mr_basis = [1] \<rparr>"

text \<open>
  \<^verbatim>\<open>FunctionFieldMaximalOrderInfinite_rational.__init__\<close> stores the field only; of the
  field the methods of the class read its generator \<^verbatim>\<open>function_field().gen()\<close>.
\<close>

record 'a maximal_order_infinite_rational =
  mir_field_gen :: 'a

definition FunctionFieldMaximalOrderInfinite_rational_init ::
  "'a \<Rightarrow> 'a maximal_order_infinite_rational" where
  "FunctionFieldMaximalOrderInfinite_rational_init field_gen = \<lparr> mir_field_gen = field_gen \<rparr>"

text \<open>
  \<^verbatim>\<open>
  def __init__(self, field, basis):       # FunctionFieldMaximalOrderInfinite_global
      FunctionFieldOrderInfinite.__init__(self, field)
      V, fr, to = field.vector_space()
      R = field.base_field().maximal_order_infinite()
      self._basis = tuple(basis)
      self._module = V.span_of_basis([to(v) for v in basis])
      self._module_base_ring = R
      self._to_module = to
  \<close>
\<close>

record ('a, 'v) maximal_order_infinite_global =
  mig_basis :: "'a list"
  mig_module :: "'v list"

definition FunctionFieldMaximalOrderInfinite_global_init ::
  "('a, 'v) order_field \<Rightarrow> 'a list \<Rightarrow> error + ('a, 'v) maximal_order_infinite_global" where
  "FunctionFieldMaximalOrderInfinite_global_init field basis =
     (let W = map (to_V field) basis
      in if \<not> is_independent field W
         then Inl (ValueError ''The given basis vectors must be linearly independent.'')
         else Inr \<lparr> mig_basis = basis, mig_module = W \<rparr>)"

text \<open>
  An order is an object of one of six classes, and \<^verbatim>\<open>basis()\<close> is a method of each:
  \<^verbatim>\<open>
  def basis(self):          # FunctionFieldOrder_basis, FunctionFieldOrderInfinite_basis,
      return self._basis    # FunctionFieldMaximalOrder_rational, FunctionFieldMaximalOrder_global,
                            # FunctionFieldMaximalOrderInfinite_global
  def basis(self):          # FunctionFieldMaximalOrderInfinite_rational
      return 1/self.function_field().gen()
  \<close>
  What a call returns is a tuple of field elements or one field element.
\<close>

datatype ('a, 'v, 'k, 'p, 'fp) order =
    Order_basis "('a, 'v) order_basis"
  | OrderInfinite_basis "('a, 'v) order_infinite_basis"
  | MaximalOrder_rational "'a maximal_order_rational"
  | MaximalOrder_global "('a, 'k, 'p, 'fp) maximal_order_global"
  | MaximalOrderInfinite_rational "'a maximal_order_infinite_rational"
  | MaximalOrderInfinite_global "('a, 'v) maximal_order_infinite_global"

datatype 'a py_value = Tuple "'a list" | Element 'a

fun basis :: "('a::field, 'v, 'k, 'p, 'fp) order \<Rightarrow> 'a py_value" where
  "basis (Order_basis self) = Tuple (o_basis self)"
| "basis (OrderInfinite_basis self) = Tuple (oi_basis self)"
| "basis (MaximalOrder_rational self) = Tuple (mr_basis self)"
| "basis (MaximalOrder_global self) = Tuple (mo_basis self)"
| "basis (MaximalOrderInfinite_rational self) = Element (1 / mir_field_gen self)"
| "basis (MaximalOrderInfinite_global self) = Tuple (mig_basis self)"

subsection \<open>Ideals of the two maximal orders of a rational function field\<close>

text \<open>
  Both \<^verbatim>\<open>ideal(self, *gens)\<close> methods start with
  \<^verbatim>\<open>
      if len(gens) == 1:
          gens = gens[0]
          if not isinstance(gens, (list, tuple)):
              if is_Ideal(gens):
                  gens = gens.gens()
              else:
                  gens = (gens,)
  \<close>
  so a call passes field elements, or one list of field elements, or one ideal. A call
  with the single element \<open>g\<close> is \<open>Gens [g]\<close>.
\<close>

datatype ('k, 'i) ideal_args = Gens "'k list" | One_list "'k list" | One_ideal 'i

fun unpack_gens :: "('i \<Rightarrow> 'k list) \<Rightarrow> ('k, 'i) ideal_args \<Rightarrow> 'k list" where
  "unpack_gens ideal_gens (Gens gs) = gs"
| "unpack_gens ideal_gens (One_list gs) = gs"
| "unpack_gens ideal_gens (One_ideal I) = ideal_gens I"

text \<open>
  \<^verbatim>\<open>
  def ideal(self, *gens):            # FunctionFieldMaximalOrder_rational
      ...
      K = self.function_field()
      gens = [K(e) for e in gens if e != 0]
      if len(gens) == 0:
          gen = K(0)
      else:
          d = lcm([c.denominator() for c in gens]).monic()
          g = gcd([(d*c).numerator() for c in gens]).monic()
          gen = K(g/d)
      return FunctionFieldIdeal_rational(self, gen)
  \<close>
\<close>

definition FunctionFieldMaximalOrder_rational_ideal ::
  "('k::field, 'p::semiring_gcd) rational_function_field \<Rightarrow> ('k, 'k ideal_rational) ideal_args
     \<Rightarrow> 'k ideal_rational" where
  "FunctionFieldMaximalOrder_rational_ideal K args =
     (let gens0 = unpack_gens gens args;
          gens1 = filter (\<lambda>e. e \<noteq> 0) gens0
      in if length gens1 = 0 then \<lparr> ideal_gen = 0 \<rparr>
         else
           (let d = normalize (lcm_list (map (\<lambda>c. denominator K c) gens1));
                g = normalize (gcd_list (map (\<lambda>c. numerator K (of_poly K d * c)) gens1))
            in \<lparr> ideal_gen = of_poly K g / of_poly K d \<rparr>))"

text \<open>
  \<^verbatim>\<open>max\<close> of Python over a sequence of integers: it raises \<^verbatim>\<open>ValueError\<close> on an
  empty one, and keeps the first of the largest values.
\<close>

fun py_max :: "int list \<Rightarrow> error + int" where
  "py_max [] = Inl (ValueError ''max() arg is an empty sequence'')"
| "py_max (v # vs) = Inr (fold (\<lambda>a m. if m < a then a else m) vs v)"

record 'k ideal_infinite_rational =
  inf_ideal_gen :: 'k

definition inf_gens :: "'k ideal_infinite_rational \<Rightarrow> 'k list" where
  "inf_gens I = [inf_ideal_gen I]"

text \<open>
  \<^verbatim>\<open>
  def ideal(self, *gens):            # FunctionFieldMaximalOrderInfinite_rational
      ...
      K = self.function_field()
      gens = [K(g) for g in gens]
      try:
          d = max(g.numerator().degree() - g.denominator().degree() for g in gens if g != 0)
          gen = K.gen() ** d
      except ValueError: # all gens are zero
          gen = K(0)
      return FunctionFieldIdealInfinite_rational(self, gen)
  \<close>
\<close>

definition FunctionFieldMaximalOrderInfinite_rational_ideal ::
  "('k::field, 'p) rational_function_field \<Rightarrow> ('k, 'k ideal_infinite_rational) ideal_args
     \<Rightarrow> error + 'k ideal_infinite_rational" where
  "FunctionFieldMaximalOrderInfinite_rational_ideal K args =
     (let gens0 = unpack_gens inf_gens args
      in case py_max (map (\<lambda>g. poly_degree K (numerator K g) - poly_degree K (denominator K g))
                          (filter (\<lambda>g. g \<noteq> 0) gens0)) of
           Inr d \<Rightarrow> Inr \<lparr> inf_ideal_gen = power_int (gen K) d \<rparr>
         | Inl (ValueError m) \<Rightarrow> Inr \<lparr> inf_ideal_gen = 0 \<rparr>
         | Inl e \<Rightarrow> Inl e)"

section \<open>A field to run the definitions on\<close>

text \<open>
  The definitions above take the field and its linear algebra as parameters. The
  examples below run them on one small instance: the Gaussian rationals \<open>\<rat>(i)\<close>, an
  extension of degree 2 of the rationals, with the integers in the place of \<open>k[x]\<close>, the
  rationals in the place of \<open>k(x)\<close>, and \<open>{1, i}\<close> as the basis of the maximal order.
\<close>

datatype gauss = Gauss (re: rat) (im: rat)

instantiation gauss :: field
begin

definition zero_gauss :: gauss where "zero_gauss = Gauss 0 0"
definition one_gauss :: gauss where "one_gauss = Gauss 1 0"
definition plus_gauss :: "gauss \<Rightarrow> gauss \<Rightarrow> gauss" where
  "plus_gauss z w = Gauss (re z + re w) (im z + im w)"
definition uminus_gauss :: "gauss \<Rightarrow> gauss" where
  "uminus_gauss z = Gauss (- re z) (- im z)"
definition minus_gauss :: "gauss \<Rightarrow> gauss \<Rightarrow> gauss" where
  "minus_gauss z w = Gauss (re z - re w) (im z - im w)"
definition times_gauss :: "gauss \<Rightarrow> gauss \<Rightarrow> gauss" where
  "times_gauss z w = Gauss (re z * re w - im z * im w) (re z * im w + im z * re w)"
definition inverse_gauss :: "gauss \<Rightarrow> gauss" where
  "inverse_gauss z =
     Gauss (re z / (re z * re z + im z * im z)) (- im z / (re z * re z + im z * im z))"
definition divide_gauss :: "gauss \<Rightarrow> gauss \<Rightarrow> gauss" where
  "divide_gauss z w = z * inverse w"

instance
proof
  fix a b c :: gauss
  show "a * b * c = a * (b * c)"
    by (simp add: times_gauss_def algebra_simps)
  show "a * b = b * a"
    by (simp add: times_gauss_def algebra_simps)
  show "1 * a = a"
    by (simp add: times_gauss_def one_gauss_def)
  show "a + b + c = a + (b + c)"
    by (simp add: plus_gauss_def)
  show "a + b = b + a"
    by (simp add: plus_gauss_def)
  show "0 + a = a"
    by (simp add: plus_gauss_def zero_gauss_def)
  show "- a + a = 0"
    by (simp add: plus_gauss_def uminus_gauss_def zero_gauss_def)
  show "a - b = a + - b"
    by (simp add: plus_gauss_def uminus_gauss_def minus_gauss_def)
  show "(a + b) * c = a * c + b * c"
    by (simp add: plus_gauss_def times_gauss_def algebra_simps)
  show "(0::gauss) \<noteq> 1"
    by (simp add: zero_gauss_def one_gauss_def)
  show "a \<noteq> 0 \<Longrightarrow> inverse a * a = 1"
  proof -
    assume "a \<noteq> 0"
    then have "re a \<noteq> 0 \<or> im a \<noteq> 0"
      by (cases a) (simp add: zero_gauss_def)
    then have nz: "re a * re a + im a * im a \<noteq> 0"
      by (simp add: sum_squares_eq_zero_iff)
    have "re a * re a / (re a * re a + im a * im a)
            + im a * im a / (re a * re a + im a * im a) = 1"
      using nz by (simp add: add_divide_distrib [symmetric])
    then show ?thesis
      by (simp add: inverse_gauss_def times_gauss_def one_gauss_def)
  qed
  show "a div b = a * inverse b"
    by (simp add: divide_gauss_def)
  show "inverse (0::gauss) = 0"
    by (simp add: inverse_gauss_def zero_gauss_def)
qed

end

text \<open>
  The span of two vectors of the rational plane over the integers has rank 2 when their
  determinant is not zero, and then holds the vectors whose two coordinates in them
  (Cramer's rule) are integers. The same lattice stands for the module over the maximal
  infinite order.
\<close>

definition det2 :: "rat \<times> rat \<Rightarrow> rat \<times> rat \<Rightarrow> rat" where
  "det2 u v = fst u * snd v - snd u * fst v"

definition plane_rank :: "(rat \<times> rat) list \<Rightarrow> nat" where
  "plane_rank vs =
     (case vs of
        [u, v] \<Rightarrow> (if det2 u v \<noteq> 0 then 2 else if u = (0, 0) \<and> v = (0, 0) then 0 else 1)
      | _ \<Rightarrow> 0)"

definition plane_contains :: "(rat \<times> rat) list \<Rightarrow> rat \<times> rat \<Rightarrow> bool" where
  "plane_contains vs w =
     (case vs of
        [u, v] \<Rightarrow> det2 u v \<noteq> 0 \<and> det2 w v / det2 u v \<in> \<int> \<and> det2 u w / det2 u v \<in> \<int>
      | _ \<Rightarrow> False)"

definition gauss_order_field :: "(gauss, rat \<times> rat) order_field" where
  "gauss_order_field =
     \<lparr> degree = 2, to_V = (\<lambda>z. (re z, im z)),
       span_rank = plane_rank, span_contains = plane_contains,
       is_independent = (\<lambda>vs. plane_rank vs = 2), infinite_integral = plane_contains \<rparr>"

text \<open>
  The rationals over the integers: numerator and denominator in lowest terms, and the
  number of binary digits less one as the degree (so that the degree of 0 is -1).
\<close>

definition int_degree :: "int \<Rightarrow> int" where
  "int_degree n = int (floorlog 2 (nat \<bar>n\<bar>)) - 1"

definition rat_over_int :: "(rat, int) rational_function_field" where
  "rat_over_int =
     \<lparr> numerator = (\<lambda>c. fst (quotient_of c)), denominator = (\<lambda>c. snd (quotient_of c)),
       of_poly = of_int, gen = 2, poly_degree = int_degree \<rparr>"

text \<open>
  The linear algebra of the instance, on the matrices the examples meet: the inverse of a
  2 by 2 matrix; the Hermite form of a diagonal matrix, which makes the pivots positive;
  the inverse of an ideal generated by a rational number; the left kernel of a matrix
  with two rows over the field of two elements. The instance knows one prime, 2, whose
  residue field has two elements.
\<close>

definition inverse_2x2 :: "rat list list \<Rightarrow> error + rat list list" where
  "inverse_2x2 m =
     (case m of
        [[a, b], [c, d]] \<Rightarrow>
          (if a * d - b * c = 0 then Inl ZeroDivisionError
           else Inr [[d / (a * d - b * c), - b / (a * d - b * c)],
                     [- c / (a * d - b * c), a / (a * d - b * c)]])
      | _ \<Rightarrow> Inl ZeroDivisionError)"

definition hermite_diagonal :: "int list list \<Rightarrow> int list list" where
  "hermite_diagonal m = map (map abs) m"

definition invert_scalar_ideal :: "int ideal_global \<Rightarrow> error + int ideal_global" where
  "invert_scalar_ideal I =
     (case hnf I of
        [[a, b], [c, d]] \<Rightarrow>
          (if b = 0 \<and> c = 0 \<and> a = d \<and> a \<noteq> 0
           then Inr \<lparr> hnf = [[\<bar>ideal_denominator I\<bar>, 0], [0, \<bar>ideal_denominator I\<bar>]],
                      ideal_denominator = a \<rparr>
           else Inl (ValueError ''not a scalar ideal''))
      | _ \<Rightarrow> Inl ZeroDivisionError)"

definition in_left_kernel_F2 :: "int list \<Rightarrow> int list list \<Rightarrow> bool" where
  "in_left_kernel_F2 v m =
     list_all (\<lambda>col. (v ! 0 * col ! 0 + v ! 1 * col ! 1) mod 2 = 0) (columns m)"

definition left_kernel_F2 :: "int list list \<Rightarrow> int list list" where
  "left_kernel_F2 m =
     (if in_left_kernel_F2 [1, 0] m \<and> in_left_kernel_F2 [0, 1] m then [[1, 0], [0, 1]]
      else case filter (\<lambda>v. in_left_kernel_F2 v m) [[1, 0], [0, 1], [1, 1]] of
             [] \<Rightarrow> []
           | v # _ \<Rightarrow> [v])"

definition gauss_field :: "(gauss, rat, int, int) global_function_field" where
  "gauss_field =
     \<lparr> F_degree = 2, base_field = rat_over_int,
       module_coordinates = (\<lambda>z. [re z, im z]),
       trace = (\<lambda>z. 2 * re z),
       matrix_inverse = inverse_2x2,
       hermite_form = hermite_diagonal,
       ideal_invert = invert_scalar_ideal,
       constant_field_order = 2,
       is_irreducible = (\<lambda>p. p = 2),
       to_Fp = (\<lambda>p c. c mod p),
       fr_Fp = (\<lambda>p c. c),
       kernel_basis = left_kernel_F2 \<rparr>"

definition gauss_order :: "(gauss, rat, int, int) maximal_order_global" where
  "gauss_order = FunctionFieldMaximalOrder_global_init gauss_field [Gauss 1 0, Gauss 0 1]"

text \<open>
  The order of the Gaussian integers given by the basis \<open>{1 + i, i}\<close>.
\<close>

definition shifted_gauss_order :: "(gauss, rat \<times> rat) order_basis" where
  "shifted_gauss_order =
     \<lparr> o_field = gauss_order_field, o_basis = [Gauss 1 1, Gauss 0 1],
       o_module = [(1, 1), (0, 1)] \<rparr>"

section \<open>Properties\<close>

subsection \<open>Differentials\<close>

text \<open>
  C7. The differential built by \<open>differential field f t\<close> has the normalized coefficient
  \<open>f * der t\<close>, where \<open>der\<close> is the derivation of the field; it is the differential built
  from the coefficient \<open>f * der t\<close> with no \<open>t\<close>; and two differentials compare equal
  exactly when their normalized coefficients are equal.
\<close>

theorem differential_normalized_coefficient:
  fixes field :: "('a::field) function_field"
  shows "d_f (differential field f (Some t)) = f * derivation field t
       \<and> differential field f (Some t) = differential field (f * derivation field t) None
       \<and> differential_richcmp lt w1 w2 Op_EQ = (d_f w1 = d_f w2)"
  by (simp add: differential_def FunctionFieldDifferential_global_init_def
      differential_richcmp_def)

subsection \<open>Orders given by a basis\<close>

lemma list_all_nested_iff:
  "list_all (\<lambda>a. list_all (\<lambda>b. P a b) ys) xs = (\<not> (\<exists>a\<in>set xs. \<exists>b\<in>set ys. \<not> P a b))"
  by (auto simp: list_all_iff)

text \<open>
  C2. With \<open>check = True\<close> the constructor of a basis-given order fails when the basis is
  empty, when its length differs from the degree of the field, when the rank of the module
  spanned by the basis differs from the degree, when 1 is not in the spanned module, or
  when some product of two basis elements is outside the spanned module. When none of
  these hold, the construction succeeds and the basis of the order is the given basis.
\<close>

theorem FunctionFieldOrder_basis_init_checked:
  fixes field :: "('a::field, 'v) order_field" and bs :: "'a list"
  defines "M \<equiv> map (to_V field) bs"
  shows "((\<exists>e. FunctionFieldOrder_basis_init field bs True = Inl e) \<longleftrightarrow>
            (bs = []
             \<or> length bs \<noteq> degree field
             \<or> span_rank field M \<noteq> degree field
             \<or> \<not> span_contains field M (to_V field 1)
             \<or> (\<exists>a\<in>set bs. \<exists>b\<in>set bs. \<not> span_contains field M (to_V field (a * b)))))
       \<and> (\<not> (bs = []
             \<or> length bs \<noteq> degree field
             \<or> span_rank field M \<noteq> degree field
             \<or> \<not> span_contains field M (to_V field 1)
             \<or> (\<exists>a\<in>set bs. \<exists>b\<in>set bs. \<not> span_contains field M (to_V field (a * b))))
           \<longrightarrow> (\<exists>order. FunctionFieldOrder_basis_init field bs True = Inr order
                  \<and> o_basis order = bs))"
  unfolding M_def FunctionFieldOrder_basis_init_def Let_def list_all_nested_iff
  by (cases bs) auto

theorem FunctionFieldOrder_basis_init_checked_witness:
  "length [Gauss 1 0, Gauss 0 1] = degree gauss_order_field
   \<and> span_rank gauss_order_field (map (to_V gauss_order_field) [Gauss 1 0, Gauss 0 1])
       = degree gauss_order_field
   \<and> (\<exists>order. FunctionFieldOrder_basis_init gauss_order_field [Gauss 1 0, Gauss 0 1] True
                 = Inr order
            \<and> o_basis order = [Gauss 1 0, Gauss 0 1])
   \<and> (\<exists>e. FunctionFieldOrder_basis_init gauss_order_field [Gauss 1 0, Gauss 0 (1 / 2)] True
             = Inl e)"
proof -
  have good: "\<not> ([Gauss 1 0, Gauss 0 1] = []
             \<or> length [Gauss 1 0, Gauss 0 1] \<noteq> degree gauss_order_field
             \<or> span_rank gauss_order_field (map (to_V gauss_order_field) [Gauss 1 0, Gauss 0 1])
                 \<noteq> degree gauss_order_field
             \<or> \<not> span_contains gauss_order_field
                   (map (to_V gauss_order_field) [Gauss 1 0, Gauss 0 1]) (to_V gauss_order_field 1)
             \<or> (\<exists>a\<in>set [Gauss 1 0, Gauss 0 1]. \<exists>b\<in>set [Gauss 1 0, Gauss 0 1].
                    \<not> span_contains gauss_order_field
                        (map (to_V gauss_order_field) [Gauss 1 0, Gauss 0 1])
                        (to_V gauss_order_field (a * b))))"
    by (simp add: gauss_order_field_def plane_rank_def plane_contains_def det2_def
        one_gauss_def times_gauss_def)
  have bad: "\<exists>a\<in>set [Gauss 1 0, Gauss 0 (1 / 2)]. \<exists>b\<in>set [Gauss 1 0, Gauss 0 (1 / 2)].
                    \<not> span_contains gauss_order_field
                        (map (to_V gauss_order_field) [Gauss 1 0, Gauss 0 (1 / 2)])
                        (to_V gauss_order_field (a * b))"
    by (simp add: gauss_order_field_def plane_rank_def plane_contains_def det2_def
        one_gauss_def times_gauss_def)
  have "\<exists>order. FunctionFieldOrder_basis_init gauss_order_field [Gauss 1 0, Gauss 0 1] True
                 = Inr order \<and> o_basis order = [Gauss 1 0, Gauss 0 1]"
    using FunctionFieldOrder_basis_init_checked [of gauss_order_field "[Gauss 1 0, Gauss 0 1]"] good
    by blast
  moreover have "\<exists>e. FunctionFieldOrder_basis_init gauss_order_field [Gauss 1 0, Gauss 0 (1 / 2)] True
             = Inl e"
    using FunctionFieldOrder_basis_init_checked [of gauss_order_field "[Gauss 1 0, Gauss 0 (1 / 2)]"] bad
    by blast
  moreover have "length [Gauss 1 0, Gauss 0 1] = degree gauss_order_field"
    "span_rank gauss_order_field (map (to_V gauss_order_field) [Gauss 1 0, Gauss 0 1])
       = degree gauss_order_field"
    using good by blast+
  ultimately show ?thesis by blast
qed

subsection \<open>What \<open>basis()\<close> returns\<close>

text \<open>
  C5 as stated says that \<open>basis()\<close> of every order is a sequence of field elements of
  the length of the degree whose index 0 is the element 1. The constructor of a basis-given
  order asks that 1 be in the module spanned by the basis, not that the basis start with
  1: with \<open>check = True\<close> it accepts the basis \<open>{1 + i, i}\<close> of the Gaussian integers, and
  \<open>basis()\<close> of that order starts with \<open>1 + i\<close>. The products of the basis elements are
  \<open>(1 + i)\<^sup>2 = 2i\<close>, \<open>(1 + i) i = - (1 + i) + 2i\<close> and \<open>i\<^sup>2 = - (1 + i) + i\<close>, and
  \<open>1 = (1 + i) - i\<close>; the same holds for the basis \<open>{1 + y, y}\<close> of the function field
  \<open>GF(3)(x)[y]/(y\<^sup>2 + 1)\<close>.
\<close>

theorem basis_first_element_counterexample:
  "FunctionFieldOrder_basis_init gauss_order_field [Gauss 1 1, Gauss 0 1] True
     = Inr shifted_gauss_order
   \<and> basis (Order_basis shifted_gauss_order :: (gauss, rat \<times> rat, rat, int, int) order)
       = Tuple [Gauss 1 1, Gauss 0 1]
   \<and> [Gauss 1 1, Gauss 0 1] ! 0 \<noteq> (1 :: gauss)"
  by (simp add: FunctionFieldOrder_basis_init_def shifted_gauss_order_def gauss_order_field_def
      plane_rank_def plane_contains_def det2_def one_gauss_def times_gauss_def)

text \<open>
  C5, amended. \<open>basis()\<close> of an order built from a basis returns that basis, in its
  order: for a basis-given order over the maximal order or over the maximal infinite order
  of the base field, checked or not, and then the length of the basis is the degree of the
  field; for a global maximal order; and for a global maximal infinite order. Index 0 is
  the element 1 when the given basis starts with 1. \<open>basis()\<close> of the maximal order of a
  rational function field is the tuple of the one element 1.
\<close>

theorem basis_is_stored_basis:
  fixes field :: "('a::field, 'v) order_field" and bs :: "'a list"
    and F :: "('a, 'k, 'p, 'fp) global_function_field"
  shows "(\<forall>self. FunctionFieldOrder_basis_init field bs check = Inr self \<longrightarrow>
            basis (Order_basis self :: ('a, 'v, 'k, 'p, 'fp) order) = Tuple bs
            \<and> length bs = degree field)
       \<and> (\<forall>self. FunctionFieldOrderInfinite_basis_init field bs check = Inr self \<longrightarrow>
            basis (OrderInfinite_basis self :: ('a, 'v, 'k, 'p, 'fp) order) = Tuple bs
            \<and> length bs = degree field)
       \<and> basis (MaximalOrder_rational (FunctionFieldMaximalOrder_rational_init x)
                  :: ('a, 'v, 'k, 'p, 'fp) order) = Tuple [1]
       \<and> basis (MaximalOrder_global (FunctionFieldMaximalOrder_global_init F bs)
                  :: ('a, 'v, 'k, 'p, 'fp) order) = Tuple bs
       \<and> (\<forall>self. FunctionFieldMaximalOrderInfinite_global_init field bs = Inr self \<longrightarrow>
            basis (MaximalOrderInfinite_global self :: ('a, 'v, 'k, 'p, 'fp) order) = Tuple bs)"
proof (intro conjI allI impI)
  fix self
  assume "FunctionFieldOrder_basis_init field bs check = Inr self"
  then have "o_basis self = bs \<and> length bs = degree field"
    by (auto simp: FunctionFieldOrder_basis_init_def Let_def split: if_splits)
  then show "basis (Order_basis self :: ('a, 'v, 'k, 'p, 'fp) order) = Tuple bs"
    and "length bs = degree field" by simp_all
next
  fix self
  assume "FunctionFieldOrderInfinite_basis_init field bs check = Inr self"
  then have "oi_basis self = bs \<and> length bs = degree field"
    by (auto simp: FunctionFieldOrderInfinite_basis_init_def Let_def split: if_splits)
  then show "basis (OrderInfinite_basis self :: ('a, 'v, 'k, 'p, 'fp) order) = Tuple bs"
    and "length bs = degree field" by simp_all
next
  show "basis (MaximalOrder_rational (FunctionFieldMaximalOrder_rational_init x)
                  :: ('a, 'v, 'k, 'p, 'fp) order) = Tuple [1]"
    by (simp add: FunctionFieldMaximalOrder_rational_init_def)
next
  show "basis (MaximalOrder_global (FunctionFieldMaximalOrder_global_init F bs)
                  :: ('a, 'v, 'k, 'p, 'fp) order) = Tuple bs"
    by (simp add: FunctionFieldMaximalOrder_global_init_def Let_def)
next
  fix self
  assume "FunctionFieldMaximalOrderInfinite_global_init field bs = Inr self"
  then show "basis (MaximalOrderInfinite_global self :: ('a, 'v, 'k, 'p, 'fp) order) = Tuple bs"
    by (auto simp: FunctionFieldMaximalOrderInfinite_global_init_def Let_def split: if_splits)
qed

theorem basis_is_stored_basis_witness:
  "FunctionFieldOrder_basis_init gauss_order_field [Gauss 1 1, Gauss 0 1] True
     = Inr shifted_gauss_order
   \<and> FunctionFieldOrderInfinite_basis_init gauss_order_field [Gauss 1 0, Gauss 0 1] True
     = Inr \<lparr> oi_field = gauss_order_field, oi_basis = [Gauss 1 0, Gauss 0 1],
             oi_ambient_space = [(1, 0), (0, 1)], oi_module_rank = 2 \<rparr>
   \<and> FunctionFieldMaximalOrderInfinite_global_init gauss_order_field [Gauss 1 0, Gauss 0 1]
     = Inr \<lparr> mig_basis = [Gauss 1 0, Gauss 0 1], mig_module = [(1, 0), (0, 1)] \<rparr>
   \<and> basis (Order_basis shifted_gauss_order :: (gauss, rat \<times> rat, rat, int, int) order)
       = Tuple [Gauss 1 1, Gauss 0 1]
   \<and> length [Gauss 1 1, Gauss 0 1] = degree gauss_order_field
   \<and> basis (OrderInfinite_basis \<lparr> oi_field = gauss_order_field, oi_basis = [Gauss 1 0, Gauss 0 1],
             oi_ambient_space = [(1, 0), (0, 1)], oi_module_rank = 2 \<rparr>
              :: (gauss, rat \<times> rat, rat, int, int) order)
       = Tuple [Gauss 1 0, Gauss 0 1]
   \<and> basis (MaximalOrderInfinite_global
               \<lparr> mig_basis = [Gauss 1 0, Gauss 0 1], mig_module = [(1, 0), (0, 1)] \<rparr>
              :: (gauss, rat \<times> rat, rat, int, int) order)
       = Tuple [Gauss 1 0, Gauss 0 1]"
proof -
  have a: "FunctionFieldOrder_basis_init gauss_order_field [Gauss 1 1, Gauss 0 1] True
     = Inr shifted_gauss_order"
    by (simp add: FunctionFieldOrder_basis_init_def shifted_gauss_order_def gauss_order_field_def
      plane_rank_def plane_contains_def det2_def one_gauss_def times_gauss_def)
  have b: "FunctionFieldOrderInfinite_basis_init gauss_order_field [Gauss 1 0, Gauss 0 1] True
     = Inr \<lparr> oi_field = gauss_order_field, oi_basis = [Gauss 1 0, Gauss 0 1],
             oi_ambient_space = [(1, 0), (0, 1)], oi_module_rank = 2 \<rparr>"
    by (simp add: FunctionFieldOrderInfinite_basis_init_def gauss_order_field_def
      plane_rank_def plane_contains_def det2_def one_gauss_def times_gauss_def)
  have c: "FunctionFieldMaximalOrderInfinite_global_init gauss_order_field [Gauss 1 0, Gauss 0 1]
     = Inr \<lparr> mig_basis = [Gauss 1 0, Gauss 0 1], mig_module = [(1, 0), (0, 1)] \<rparr>"
    by (simp add: FunctionFieldMaximalOrderInfinite_global_init_def gauss_order_field_def
      plane_rank_def det2_def)
  note inst1 = basis_is_stored_basis [of gauss_order_field "[Gauss 1 1, Gauss 0 1]" True
      2 gauss_field]
  note inst2 = basis_is_stored_basis [of gauss_order_field "[Gauss 1 0, Gauss 0 1]" True
      2 gauss_field]
  show ?thesis
    using inst1 inst2 a b c by blast
qed

text \<open>
  \<open>basis()\<close> of the maximal infinite order of a rational function field is left out of
  the amended statement: it returns the field element \<open>1/x\<close>, not a tuple, where its
  docstring announces the basis \<open>(1,)\<close>.
\<close>

lemma basis_MaximalOrderInfinite_rational:
  "basis (MaximalOrderInfinite_rational (FunctionFieldMaximalOrderInfinite_rational_init x))
     = Element (1 / x)"
  by (simp add: FunctionFieldMaximalOrderInfinite_rational_init_def)

subsection \<open>Cached methods keep the store consistent\<close>

lemma map_by_index: "map (\<lambda>i. f (xs ! i)) [0..<length xs] = map f xs"
proof -
  have "map (\<lambda>i. f (xs ! i)) [0..<length xs] = map f (map (\<lambda>i. xs ! i) [0..<length xs])"
    by simp
  then show ?thesis by (simp only: map_nth)
qed

lemma codifferent_matrix_body_entries:
  "codifferent_matrix_body self =
     map (\<lambda>i. map (\<lambda>j. trace (mo_field self) (mo_basis self ! i * mo_basis self ! j))
                   [0..<length (mo_basis self)])
         [0..<length (mo_basis self)]"
  unfolding codifferent_matrix_body_def
  by (simp only: map_by_index [where f = "\<lambda>v. trace (mo_field self) (u * v)" for u]
        map_by_index [where f = "\<lambda>u. map (\<lambda>v. trace (mo_field self) (u * v)) (mo_basis self)"])

lemma cache_ok_empty: "cache_ok self empty_cache"
  by (simp add: cache_ok_def empty_cache_def)

lemma private_codifferent_matrix_ok:
  assumes "cache_ok self c"
  shows "fst (private_codifferent_matrix self c) = codifferent_matrix_body self"
    and "cache_ok self (snd (private_codifferent_matrix self c))"
  using assms
  by (auto simp: private_codifferent_matrix_def cache_ok_def Let_def split: option.splits)

lemma codifferent_ok:
  assumes "cache_ok self c"
  shows "fst (codifferent self c) =
           (case matrix_inverse (mo_field self) (codifferent_matrix_body self) of
              Inl e \<Rightarrow> Inl e
            | Inr Ti \<Rightarrow> Inr (ideal_from_vectors (mo_field self) (columns Ti)))"
    and "cache_ok self (snd (codifferent self c))"
proof -
  obtain T c1 where pc: "private_codifferent_matrix self c = (T, c1)"
    by (cases "private_codifferent_matrix self c")
  have T: "T = codifferent_matrix_body self" and c1: "cache_ok self c1"
    using private_codifferent_matrix_ok [OF assms] pc by simp_all
  show "fst (codifferent self c) =
           (case matrix_inverse (mo_field self) (codifferent_matrix_body self) of
              Inl e \<Rightarrow> Inl e
            | Inr Ti \<Rightarrow> Inr (ideal_from_vectors (mo_field self) (columns Ti)))"
    using assms pc T
    by (auto simp: codifferent_def cache_ok_def Let_def split: option.splits sum.splits)
  show "cache_ok self (snd (codifferent self c))"
    using assms pc T c1
    by (auto simp: codifferent_def cache_ok_def Let_def split: option.splits sum.splits)
qed

lemma different_ok:
  assumes "cache_ok self c"
  shows "fst (different self c) =
           (case matrix_inverse (mo_field self) (codifferent_matrix_body self) of
              Inl e \<Rightarrow> Inl e
            | Inr Ti \<Rightarrow> ideal_invert (mo_field self)
                          (ideal_from_vectors (mo_field self) (columns Ti)))"
    and "cache_ok self (snd (different self c))"
proof -
  obtain r c1 where cd: "codifferent self c = (r, c1)"
    by (cases "codifferent self c")
  have r: "r = (case matrix_inverse (mo_field self) (codifferent_matrix_body self) of
              Inl e \<Rightarrow> Inl e
            | Inr Ti \<Rightarrow> Inr (ideal_from_vectors (mo_field self) (columns Ti)))"
    and c1: "cache_ok self c1"
    using codifferent_ok [OF assms] cd by simp_all
  show "fst (different self c) =
           (case matrix_inverse (mo_field self) (codifferent_matrix_body self) of
              Inl e \<Rightarrow> Inl e
            | Inr Ti \<Rightarrow> ideal_invert (mo_field self)
                          (ideal_from_vectors (mo_field self) (columns Ti)))"
    using assms cd r
    by (auto simp: different_def cache_ok_def split: option.splits sum.splits)
  show "cache_ok self (snd (different self c))"
    using assms cd r c1
    by (auto simp: different_def cache_ok_def split: option.splits sum.splits)
qed

lemma p_radical_ok:
  assumes "cache_ok self c"
  shows "p_radical self c prime = Some (r, c') \<Longrightarrow> cache_ok self c'"
    and "p_radical self c prime = Some (r, c') \<Longrightarrow> p_radical_body self prime = Some r"
    and "p_radical_body self prime = Some r \<Longrightarrow> \<exists>c'. p_radical self c prime = Some (r, c')"
proof -
  have hit: "p_radical_body self prime = Some (Inr I)" if "cache_p_radical c prime = Some I" for I
    using assms that by (simp add: cache_ok_def)
  show "p_radical self c prime = Some (r, c') \<Longrightarrow> cache_ok self c'"
    using assms
    by (auto simp: p_radical_def cache_ok_def split: option.splits sum.splits if_splits)
  show "p_radical self c prime = Some (r, c') \<Longrightarrow> p_radical_body self prime = Some r"
    using hit by (auto simp: p_radical_def split: option.splits sum.splits)
  show "p_radical_body self prime = Some r \<Longrightarrow> \<exists>c'. p_radical self c prime = Some (r, c')"
    using hit by (cases "cache_p_radical c prime"; cases r) (auto simp: p_radical_def)
qed

lemma reachable_cache_ok: "reachable self c \<Longrightarrow> cache_ok self c"
proof (induction rule: reachable.induct)
  case new
  show ?case by (rule cache_ok_empty)
next
  case (call_codifferent_matrix c)
  then show ?case by (simp add: private_codifferent_matrix_ok)
next
  case (call_codifferent c)
  then show ?case by (simp add: codifferent_ok)
next
  case (call_different c)
  then show ?case by (simp add: different_ok)
next
  case (call_p_radical c prime r c')
  then show ?case by (simp add: p_radical_ok(1))
qed


subsection \<open>The multiplication table\<close>

text \<open>
  C6. For a global maximal order built from a basis of length \<open>n\<close> and all indices
  \<open>i, j < n\<close>, the multiplication table has \<open>mtable[i][j] = mtable[j][i]\<close>: the
  coordinate vector of \<open>basis[i] * basis[j]\<close> is that of \<open>basis[j] * basis[i]\<close>. Both
  index orders are valid lookups, the table being filled for all pairs.
\<close>

theorem mtable_symmetric:
  fixes field :: "('a::field, 'k, 'p, 'fp) global_function_field" and bs :: "'a list"
  assumes "i < length bs" and "j < length bs"
  defines "mtable \<equiv> mo_mtable (FunctionFieldMaximalOrder_global_init field bs)"
  shows "mtable ! i ! j = mtable ! j ! i
       \<and> mtable ! i ! j = private_coordinate_vector field (bs ! i * bs ! j)
       \<and> i < length mtable \<and> j < length (mtable ! i)
       \<and> j < length mtable \<and> i < length (mtable ! j)"
  using assms(1,2) unfolding mtable_def FunctionFieldMaximalOrder_global_init_def Let_def
  by (simp add: mult.commute)

theorem mtable_symmetric_witness:
  "(0::nat) < length [Gauss 1 0, Gauss 0 1] \<and> (1::nat) < length [Gauss 1 0, Gauss 0 1]
   \<and> mo_mtable gauss_order ! 0 ! 1 = mo_mtable gauss_order ! 1 ! 0
   \<and> mo_mtable gauss_order ! 0 ! 1 = [0, 1]"
proof -
  have len: "(0::nat) < length [Gauss 1 0, Gauss 0 1]" "(1::nat) < length [Gauss 1 0, Gauss 0 1]"
    by simp_all
  have v: "mo_mtable gauss_order ! 0 ! 1 = [0, 1]"
    by code_simp
  have "mo_mtable gauss_order ! 0 ! 1 = mo_mtable gauss_order ! 1 ! 0"
    using mtable_symmetric [OF len, of gauss_field] unfolding gauss_order_def by blast
  then show ?thesis using len v by blast
qed

subsection \<open>Different and codifferent\<close>

text \<open>
  C3. For a global maximal order, in any state its cached methods can leave it in, the
  matrix of \<open>_codifferent_matrix\<close> is the \<open>n\<close> by \<open>n\<close> matrix \<open>T\<close> with
  \<open>T[i][j] = trace(basis[i] * basis[j])\<close>; when \<open>T\<close> has an inverse, \<open>codifferent()\<close> is the
  ideal built from the columns of the inverse; and \<open>different()\<close> is the inverse, as a
  fractional ideal, of what \<open>codifferent()\<close> returns (and raises what it raises).
\<close>

theorem different_is_inverse_of_codifferent:
  fixes self :: "('a::field, 'k::field, 'p::semiring_gcd, 'fp) maximal_order_global"
  assumes "reachable self c" and "reachable self c'"
  defines "n \<equiv> length (mo_basis self)"
  defines "T \<equiv> map (\<lambda>i. map (\<lambda>j. trace (mo_field self) (mo_basis self ! i * mo_basis self ! j))
                             [0..<n]) [0..<n]"
  shows "fst (private_codifferent_matrix self c) = T
       \<and> (\<forall>Ti. matrix_inverse (mo_field self) T = Inr Ti \<longrightarrow>
             fst (codifferent self c) = Inr (ideal_from_vectors (mo_field self) (columns Ti)))
       \<and> (\<forall>I. fst (codifferent self c) = Inr I \<longrightarrow>
             fst (different self c') = ideal_invert (mo_field self) I)
       \<and> (\<forall>e. fst (codifferent self c) = Inl e \<longrightarrow> fst (different self c') = Inl e)"
proof -
  have ok: "cache_ok self c" "cache_ok self c'"
    using assms(1,2) by (simp_all add: reachable_cache_ok)
  have T: "T = codifferent_matrix_body self"
    unfolding T_def n_def by (rule codifferent_matrix_body_entries [symmetric])
  show ?thesis
    unfolding T
    by (auto simp: private_codifferent_matrix_ok(1) [OF ok(1)] codifferent_ok(1) [OF ok(1)]
        different_ok(1) [OF ok(2)] split: sum.splits)
qed

theorem different_is_inverse_of_codifferent_witness:
  "reachable gauss_order empty_cache
   \<and> reachable gauss_order (snd (different gauss_order empty_cache))
   \<and> fst (private_codifferent_matrix gauss_order empty_cache) = [[2, 0], [0, - 2]]
   \<and> matrix_inverse gauss_field [[2, 0], [0, - 2]] = Inr [[1 / 2, 0], [0, - 1 / 2]]
   \<and> fst (codifferent gauss_order empty_cache)
       = Inr \<lparr> hnf = [[1, 0], [0, 1]], ideal_denominator = 2 \<rparr>
   \<and> fst (different gauss_order (snd (different gauss_order empty_cache)))
       = Inr \<lparr> hnf = [[2, 0], [0, 2]], ideal_denominator = 1 \<rparr>"
proof -
  have r0: "reachable gauss_order empty_cache" by (rule reachable.new)
  have r1: "reachable gauss_order (snd (different gauss_order empty_cache))"
    using r0 by (rule reachable.call_different)
  have basis: "mo_basis gauss_order = [Gauss 1 0, Gauss 0 1]" "mo_field gauss_order = gauss_field"
    by (simp_all add: gauss_order_def FunctionFieldMaximalOrder_global_init_def Let_def)
  have T: "map (\<lambda>i. map (\<lambda>j. trace (mo_field gauss_order)
                 (mo_basis gauss_order ! i * mo_basis gauss_order ! j))
                 [0..<length (mo_basis gauss_order)]) [0..<length (mo_basis gauss_order)]
           = [[2, 0], [0, - 2]]"
    by (simp add: basis gauss_field_def times_gauss_def upt_rec [of 0 2] upt_rec [of 1 2])
  have inv: "matrix_inverse gauss_field [[2, 0], [0, - 2]] = Inr [[1 / 2, 0], [0, - 1 / 2]]"
    by (simp add: gauss_field_def inverse_2x2_def)
  have ifv: "ideal_from_vectors gauss_field (columns [[1 / 2, 0], [0, - 1 / 2]])
               = \<lparr> hnf = [[1, 0], [0, 1]], ideal_denominator = 2 \<rparr>"
    by code_simp
  have inv_ideal: "ideal_invert gauss_field \<lparr> hnf = [[1, 0], [0, 1]], ideal_denominator = 2 \<rparr>
               = Inr \<lparr> hnf = [[2, 0], [0, 2]], ideal_denominator = 1 \<rparr>"
    by (simp add: gauss_field_def invert_scalar_ideal_def)
  note inst = different_is_inverse_of_codifferent [OF r0 r1, unfolded T]
  have m: "fst (private_codifferent_matrix gauss_order empty_cache) = [[2, 0], [0, - 2]]"
    using inst by blast
  have "fst (codifferent gauss_order empty_cache)
          = Inr (ideal_from_vectors (mo_field gauss_order) (columns [[1 / 2, 0], [0, - 1 / 2]]))"
    using inst inv unfolding basis by blast
  then have cd: "fst (codifferent gauss_order empty_cache)
          = Inr \<lparr> hnf = [[1, 0], [0, 1]], ideal_denominator = 2 \<rparr>"
    unfolding basis ifv .
  have "fst (different gauss_order (snd (different gauss_order empty_cache)))
          = ideal_invert (mo_field gauss_order) \<lparr> hnf = [[1, 0], [0, 1]], ideal_denominator = 2 \<rparr>"
    using inst cd by blast
  then have d: "fst (different gauss_order (snd (different gauss_order empty_cache)))
          = Inr \<lparr> hnf = [[2, 0], [0, 2]], ideal_denominator = 1 \<rparr>"
    unfolding basis inv_ideal .
  show ?thesis
    using r0 r1 m inv cd d by blast
qed

subsection \<open>The p-radical\<close>

lemma radical_exponent_terminates:
  assumes "2 \<le> q" "2 \<le> e"
  shows "\<exists>r. radical_exponent q n e = Some r \<and> n < r"
  using assms
proof (induction "Suc n - e" arbitrary: e rule: less_induct)
  case less
  show ?case
  proof (cases "e \<le> n")
    case False
    then show ?thesis by (subst radical_exponent.simps) simp
  next
    case True
    have "e * e \<le> e ^ q"
      using less.prems power_increasing[of 2 q e] by (simp add: power2_eq_square)
    moreover have "2 * e \<le> e * e" using less.prems by simp
    ultimately have gt: "e < e ^ q" using less.prems by linarith
    then have "Suc n - e ^ q < Suc n - e" using True by linarith
    moreover have "2 \<le> e ^ q" using gt less.prems by linarith
    ultimately obtain r where "radical_exponent q n (e ^ q) = Some r \<and> n < r"
      using less.hyps[of "e ^ q"] less.prems by blast
    then show ?thesis using True by (subst radical_exponent.simps) simp
  qed
qed

lemma p_radical_body_result:
  fixes self :: "('a::field, 'k::field, 'p::semiring_gcd, 'fp) maximal_order_global"
  assumes "2 \<le> constant_field_order (mo_field self)"
      and "\<forall>p. is_irreducible (mo_field self) p \<longrightarrow>
               1 \<le> poly_degree (base_field (mo_field self)) p"
  shows "(\<exists>e. p_radical_body self prime = Some (Inl e)) \<longleftrightarrow>
           \<not> (denominator (base_field (mo_field self)) (ideal_gen prime) = 1
              \<and> is_irreducible (mo_field self)
                   (numerator (base_field (mo_field self)) (ideal_gen prime)))"
    and "denominator (base_field (mo_field self)) (ideal_gen prime) = 1
           \<and> is_irreducible (mo_field self)
                (numerator (base_field (mo_field self)) (ideal_gen prime))
         \<Longrightarrow> \<exists>I. p_radical_body self prime = Some (Inr I)"
proof -
  let ?F = "mo_field self" and ?K = "base_field (mo_field self)"
  let ?p = "numerator ?K (ideal_gen prime)"
  let ?q = "constant_field_order ?F ^ nat (poly_degree ?K ?p)"
  let ?ok = "denominator ?K (ideal_gen prime) = 1 \<and> is_irreducible ?F ?p"
  have terminates: "\<exists>r. radical_exponent ?q (F_degree ?F) ?q = Some r" if "?ok"
  proof -
    from that assms(2) have "1 \<le> nat (poly_degree ?K ?p)" by auto
    then have "constant_field_order ?F ^ 1 \<le> ?q"
      using assms(1) by (intro power_increasing) simp_all
    then have "2 \<le> ?q" using assms(1) by simp
    then show ?thesis using radical_exponent_terminates [of ?q ?q] by blast
  qed
  show "(\<exists>e. p_radical_body self prime = Some (Inl e)) \<longleftrightarrow> \<not> ?ok"
    using terminates by (auto simp: p_radical_body_def gens_def Let_def split: option.splits)
  show "\<exists>I. p_radical_body self prime = Some (Inr I)" if "?ok"
    using terminates [OF that] that by (auto simp: p_radical_body_def gens_def Let_def split: option.splits)
qed

text \<open>
  C4. For every ideal argument, \<open>p_radical\<close> raises exactly when the single generator of
  the ideal is not a polynomial (its denominator is not 1) with an irreducible numerator;
  when the generator is such a polynomial, \<open>p_radical\<close> returns an ideal. The order is in
  a state that calls of its cached methods can leave it in; the constant field has at least
  two elements, and an irreducible polynomial has degree at least 1, which is what makes
  the loop for the exponent end.
\<close>

theorem p_radical_raises_iff_not_prime:
  fixes self :: "('a::field, 'k::field, 'p::semiring_gcd, 'fp) maximal_order_global"
  assumes "reachable self c"
      and "2 \<le> constant_field_order (mo_field self)"
      and "\<forall>p. is_irreducible (mo_field self) p \<longrightarrow>
               1 \<le> poly_degree (base_field (mo_field self)) p"
  shows "((\<exists>e c'. p_radical self c prime = Some (Inl e, c')) \<longleftrightarrow>
            \<not> (denominator (base_field (mo_field self)) (ideal_gen prime) = 1
               \<and> is_irreducible (mo_field self)
                    (numerator (base_field (mo_field self)) (ideal_gen prime))))
       \<and> (denominator (base_field (mo_field self)) (ideal_gen prime) = 1
            \<and> is_irreducible (mo_field self)
                 (numerator (base_field (mo_field self)) (ideal_gen prime))
          \<longrightarrow> (\<exists>I c'. p_radical self c prime = Some (Inr I, c')))"
proof -
  have ok: "cache_ok self c" using assms(1) by (rule reachable_cache_ok)
  note body = p_radical_body_result [OF assms(2,3), of prime]
  show ?thesis
  proof (intro conjI impI iffI)
    assume "\<exists>e c'. p_radical self c prime = Some (Inl e, c')"
    then obtain e c' where "p_radical self c prime = Some (Inl e, c')" by blast
    then have "p_radical_body self prime = Some (Inl e)" by (rule p_radical_ok(2) [OF ok])
    then show "\<not> (denominator (base_field (mo_field self)) (ideal_gen prime) = 1
               \<and> is_irreducible (mo_field self)
                    (numerator (base_field (mo_field self)) (ideal_gen prime)))"
      using body(1) by blast
  next
    assume "\<not> (denominator (base_field (mo_field self)) (ideal_gen prime) = 1
               \<and> is_irreducible (mo_field self)
                    (numerator (base_field (mo_field self)) (ideal_gen prime)))"
    then obtain e where "p_radical_body self prime = Some (Inl e)" using body(1) by blast
    then show "\<exists>e c'. p_radical self c prime = Some (Inl e, c')"
      using p_radical_ok(3) [OF ok] by blast
  next
    assume "denominator (base_field (mo_field self)) (ideal_gen prime) = 1
            \<and> is_irreducible (mo_field self)
                 (numerator (base_field (mo_field self)) (ideal_gen prime))"
    then obtain I where "p_radical_body self prime = Some (Inr I)" using body(2) by blast
    then show "\<exists>I c'. p_radical self c prime = Some (Inr I, c')"
      using p_radical_ok(3) [OF ok] by blast
  qed
qed

theorem p_radical_raises_iff_not_prime_witness:
  "reachable gauss_order empty_cache
   \<and> 2 \<le> constant_field_order (mo_field gauss_order)
   \<and> is_irreducible (mo_field gauss_order) 2
   \<and> 1 \<le> poly_degree (base_field (mo_field gauss_order)) 2
   \<and> denominator (base_field (mo_field gauss_order)) (ideal_gen \<lparr> ideal_gen = 2 \<rparr>) = 1
   \<and> (\<exists>I c'. p_radical gauss_order empty_cache \<lparr> ideal_gen = 2 \<rparr> = Some (Inr I, c'))
   \<and> (\<exists>e c'. p_radical gauss_order empty_cache \<lparr> ideal_gen = 1 / 2 \<rparr> = Some (Inl e, c'))"
proof -
  have fld: "mo_field gauss_order = gauss_field"
    by (simp add: gauss_order_def FunctionFieldMaximalOrder_global_init_def Let_def)
  have r0: "reachable gauss_order empty_cache" by (rule reachable.new)
  have q: "2 \<le> constant_field_order (mo_field gauss_order)"
    by (simp add: fld gauss_field_def)
  have deg2: "int_degree 2 = 1" by code_simp
  have irr: "\<forall>p. is_irreducible (mo_field gauss_order) p \<longrightarrow>
               1 \<le> poly_degree (base_field (mo_field gauss_order)) p"
    by (simp add: fld gauss_field_def rat_over_int_def deg2)
  have i2: "is_irreducible (mo_field gauss_order) 2"
    by (simp add: fld gauss_field_def)
  have d2: "1 \<le> poly_degree (base_field (mo_field gauss_order)) 2"
    by (simp add: fld gauss_field_def rat_over_int_def deg2)
  have den: "denominator (base_field (mo_field gauss_order)) (ideal_gen \<lparr> ideal_gen = 2 \<rparr>) = 1"
    by (simp add: fld gauss_field_def rat_over_int_def)
  have num: "numerator (base_field (mo_field gauss_order)) (ideal_gen \<lparr> ideal_gen = 2 \<rparr>) = 2"
    by (simp add: fld gauss_field_def rat_over_int_def)
  have den_half: "denominator (base_field (mo_field gauss_order)) (ideal_gen \<lparr> ideal_gen = 1 / 2 \<rparr>) \<noteq> 1"
    unfolding fld by code_simp
  have ok: "\<exists>I c'. p_radical gauss_order empty_cache \<lparr> ideal_gen = 2 \<rparr> = Some (Inr I, c')"
    using p_radical_raises_iff_not_prime [OF r0 q irr, of "\<lparr> ideal_gen = 2 \<rparr>"] den num i2
    by simp
  have bad: "\<exists>e c'. p_radical gauss_order empty_cache \<lparr> ideal_gen = 1 / 2 \<rparr> = Some (Inl e, c')"
    using p_radical_raises_iff_not_prime [OF r0 q irr, of "\<lparr> ideal_gen = 1 / 2 \<rparr>"] den_half
    by blast
  show ?thesis using r0 q i2 d2 den ok bad by blast
qed

subsection \<open>Ideals of the maximal orders of a rational function field\<close>

lemma lcm_list_drop_zero:
  fixes den :: "'k::field \<Rightarrow> 'p::semiring_gcd"
  assumes "den 0 = 1"
  shows "lcm_list (map den (filter (\<lambda>e. e \<noteq> 0) gs)) = lcm_list (map den gs)"
proof (induction gs)
  case Nil
  show ?case by simp
next
  case (Cons g gs)
  show ?case
  proof (cases "g = 0")
    case True
    have "lcm_list (map den (g # gs)) = lcm 1 (lcm_list (map den gs))"
      using True assms by simp
    also have "\<dots> = lcm_list (map den gs)"
      by (simp add: lcm_1_left)
    finally show ?thesis using True Cons.IH by simp
  next
    case False
    then show ?thesis using Cons.IH by simp
  qed
qed

lemma py_max_eq_Max:
  "vs \<noteq> [] \<Longrightarrow> py_max vs = Inr (Max (set vs))"
proof (cases vs)
  case Nil
  then show "vs \<noteq> [] \<Longrightarrow> ?thesis" by simp
next
  case (Cons v ws)
  have "(\<lambda>a m. if m < a then a else m) = (max :: int \<Rightarrow> int \<Rightarrow> int)"
    by (intro ext) (simp add: max_def)
  moreover have "Max (set (v # ws)) = fold max ws v"
    by (rule Max.set_eq_fold)
  ultimately show ?thesis using Cons by simp
qed

text \<open>
  C9. For the maximal order of a rational function field, \<open>ideal(*gens)\<close> with at least one
  nonzero generator returns the principal ideal generated by \<open>g/d\<close>, where \<open>d\<close> is the
  monic least common multiple of the denominators of the generators and \<open>g\<close> is the monic
  greatest common divisor of the numerators of \<open>d\<close> times each nonzero generator; when
  every generator is zero, or there is none, it returns the zero ideal. The code drops the
  zero generators before it takes the denominators; their denominator is 1.
\<close>

theorem rational_ideal_generator:
  fixes K :: "('k::field, 'p::semiring_gcd) rational_function_field"
    and args :: "('k, 'k ideal_rational) ideal_args"
  assumes "denominator K 0 = 1"
  defines "gs \<equiv> unpack_gens gens args"
  defines "d \<equiv> normalize (lcm_list (map (denominator K) gs))"
  defines "g \<equiv> normalize (gcd_list (map (\<lambda>c. numerator K (of_poly K d * c))
                                         (filter (\<lambda>c. c \<noteq> 0) gs)))"
  shows "FunctionFieldMaximalOrder_rational_ideal K args =
           \<lparr> ideal_gen = (if \<exists>c\<in>set gs. c \<noteq> 0 then of_poly K g / of_poly K d else 0) \<rparr>"
proof -
  have d: "normalize (lcm_list (map (denominator K) (filter (\<lambda>e. e \<noteq> 0) gs))) = d"
    unfolding d_def using lcm_list_drop_zero [of "denominator K" gs, OF assms(1)] by simp
  have empty: "filter (\<lambda>e. e \<noteq> 0) gs = [] \<longleftrightarrow> \<not> (\<exists>c\<in>set gs. c \<noteq> 0)"
    by (auto simp: filter_empty_conv)
  show ?thesis
    unfolding FunctionFieldMaximalOrder_rational_ideal_def Let_def gs_def [symmetric] d
    using empty by (simp add: g_def)
qed

theorem rational_ideal_generator_witness:
  "denominator rat_over_int 0 = 1
   \<and> FunctionFieldMaximalOrder_rational_ideal rat_over_int (Gens [3 / 4, 0, 5 / 6])
       = \<lparr> ideal_gen = 1 / 12 \<rparr>
   \<and> FunctionFieldMaximalOrder_rational_ideal rat_over_int (Gens [0, 0]) = \<lparr> ideal_gen = 0 \<rparr>"
proof -
  have den0: "denominator rat_over_int 0 = 1"
    by (simp add: rat_over_int_def)
  have d: "normalize (lcm_list (map (denominator rat_over_int) [3 / 4, 0, 5 / 6])) = 12"
    by code_simp
  have g: "normalize (gcd_list (map (\<lambda>c. numerator rat_over_int (of_poly rat_over_int 12 * c))
             (filter (\<lambda>c. c \<noteq> 0) [3 / 4, 0, 5 / 6]))) = 1"
    by code_simp
  have ex: "\<exists>c\<in>set [3 / 4, 0, 5 / 6 :: rat]. c \<noteq> 0" by simp
  have k: "of_poly rat_over_int 1 / of_poly rat_over_int 12 = (1 / 12 :: rat)"
    by (simp add: rat_over_int_def)
  have nz: "FunctionFieldMaximalOrder_rational_ideal rat_over_int (Gens [3 / 4, 0, 5 / 6])
       = \<lparr> ideal_gen = 1 / 12 \<rparr>"
    using rational_ideal_generator [OF den0, of "Gens [3 / 4, 0, 5 / 6]"] ex
    unfolding unpack_gens.simps d g k by simp
  have z: "FunctionFieldMaximalOrder_rational_ideal rat_over_int (Gens [0, 0]) = \<lparr> ideal_gen = 0 \<rparr>"
    using rational_ideal_generator [OF den0, of "Gens [0, 0]"] by simp
  show ?thesis using den0 nz z by blast
qed

text \<open>
  C10. For the maximal infinite order of a rational function field, \<open>ideal(*gens)\<close>
  returns the principal ideal generated by \<open>x^d\<close>, where \<open>x\<close> is the generator of the
  field and \<open>d\<close> is the maximum, over the nonzero generators, of the degree of the
  numerator minus the degree of the denominator; when all generators are zero it returns
  the zero ideal.
\<close>

theorem infinite_rational_ideal_generator:
  fixes K :: "('k::field, 'p) rational_function_field"
    and args :: "('k, 'k ideal_infinite_rational) ideal_args"
  defines "gs \<equiv> unpack_gens inf_gens args"
  defines "v \<equiv> \<lambda>g. poly_degree K (numerator K g) - poly_degree K (denominator K g)"
  shows "FunctionFieldMaximalOrderInfinite_rational_ideal K args =
           Inr \<lparr> inf_ideal_gen =
                   (if \<exists>g\<in>set gs. g \<noteq> 0
                    then power_int (gen K) (Max (v ` {g \<in> set gs. g \<noteq> 0}))
                    else 0) \<rparr>"
proof (cases "\<exists>g\<in>set gs. g \<noteq> 0")
  case True
  then have ne: "map v (filter (\<lambda>g. g \<noteq> 0) gs) \<noteq> []"
    by (auto simp: filter_empty_conv)
  have "set (map v (filter (\<lambda>g. g \<noteq> 0) gs)) = v ` {g \<in> set gs. g \<noteq> 0}"
    by auto
  then have "py_max (map v (filter (\<lambda>g. g \<noteq> 0) gs)) = Inr (Max (v ` {g \<in> set gs. g \<noteq> 0}))"
    using py_max_eq_Max [OF ne] by simp
  then show ?thesis
    unfolding FunctionFieldMaximalOrderInfinite_rational_ideal_def Let_def gs_def [symmetric]
      v_def [symmetric]
    using True by simp
next
  case False
  then have "filter (\<lambda>g. g \<noteq> 0) gs = []"
    by (auto simp: filter_empty_conv)
  then show ?thesis
    unfolding FunctionFieldMaximalOrderInfinite_rational_ideal_def Let_def gs_def [symmetric]
    using False by simp
qed

theorem infinite_rational_ideal_generator_witness:
  "(\<exists>g\<in>set [3 / 4, 0, 5 / 6 :: rat]. g \<noteq> 0)
   \<and> FunctionFieldMaximalOrderInfinite_rational_ideal rat_over_int (Gens [3 / 4, 0, 5 / 6])
       = Inr \<lparr> inf_ideal_gen = 1 \<rparr>
   \<and> FunctionFieldMaximalOrderInfinite_rational_ideal rat_over_int (One_list [0, 0])
       = Inr \<lparr> inf_ideal_gen = 0 \<rparr>"
proof -
  have ex: "\<exists>g\<in>set [3 / 4, 0, 5 / 6 :: rat]. g \<noteq> 0" by simp
  have s: "{g \<in> set [3 / 4, 0, 5 / 6 :: rat]. g \<noteq> 0} = {3 / 4, 5 / 6}" by auto
  have v1: "poly_degree rat_over_int (numerator rat_over_int (3 / 4))
              - poly_degree rat_over_int (denominator rat_over_int (3 / 4)) = - 1"
    by code_simp
  have v2: "poly_degree rat_over_int (numerator rat_over_int (5 / 6))
              - poly_degree rat_over_int (denominator rat_over_int (5 / 6)) = 0"
    by code_simp
  have nz: "FunctionFieldMaximalOrderInfinite_rational_ideal rat_over_int (Gens [3 / 4, 0, 5 / 6])
       = Inr \<lparr> inf_ideal_gen = 1 \<rparr>"
    using infinite_rational_ideal_generator [of rat_over_int "Gens [3 / 4, 0, 5 / 6]"] ex
    unfolding unpack_gens.simps s by (simp add: v1 v2)
  have z: "FunctionFieldMaximalOrderInfinite_rational_ideal rat_over_int (One_list [0, 0])
       = Inr \<lparr> inf_ideal_gen = 0 \<rparr>"
    using infinite_rational_ideal_generator [of rat_over_int "One_list [0, 0]"] by simp
  show ?thesis using ex nz z by blast
qed

end
